theory Spec2Isabelle
  imports Complex_Main "HOL-Library.Char_ord" "HOL-Library.List_Lexorder"
begin

section \<open>Numbers, strings and the default sort\<close>

text \<open>
  The analysed program is the cold-start tracker of a Lambda performance server
  (class \<open>ColdStartTracker\<close>) together with three helpers of its sibling class
  \<open>LambdaAnalyzer\<close>. JavaScript numbers are modelled exactly: counts and epoch
  milliseconds are natural numbers, measured durations and rates are rationals, and
  \<open>Math.round x\<close> is \<open>round x\<close>, that is \<open>\<lfloor>x + 1/2\<rfloor>\<close>. The IEEE rounding of
  intermediate products is not part of the model. Where the program can produce
  \<open>NaN\<close> (a division \<open>0 / 0\<close>, a read past the end of an array) the value is an
  option and \<open>None\<close> stands for \<open>NaN\<close>; every comparison with \<open>NaN\<close> is false.
\<close>

text \<open>
  Number to string conversion of a non-negative integer: its decimal digits. The numbers
  converted are epoch milliseconds, whole numbers far below \<open>2^53\<close>, which are
  represented exactly and are written in plain decimal notation.
\<close>

definition digitChar :: "nat \<Rightarrow> char" where
  "digitChar d = char_of (48 + d)"

fun toString :: "nat \<Rightarrow> string" where
  "toString n = (if n < 10 then [digitChar n] else toString (n div 10) @ [digitChar (n mod 10)])"

declare toString.simps [simp del]

text \<open>
  \<open>Array.prototype.sort\<close> called without a comparator orders the elements by their
  string conversions, compared code unit by code unit. The sort is stable.
\<close>

definition defaultSort :: "nat list \<Rightarrow> nat list" where
  "defaultSort xs = sort_key toString xs"

text \<open>A comparison \<open>x > c\<close> in which \<open>x\<close> may be \<open>NaN\<close>.\<close>

fun gtNaN :: "rat option \<Rightarrow> rat \<Rightarrow> bool" where
  "gtNaN None c = False"
| "gtNaN (Some x) c = (x > c)"

section \<open>Data model\<close>

text \<open>A log event as the log source returns it.\<close>

record logEvent =
  timestamp :: nat
  message :: string
  logStreamName :: string

text \<open>
  The record \<open>extractColdStartData\<close> builds for one cold start. A field holding
  \<open>null\<close> is \<open>None\<close>. The field \<open>timestamp\<close> of the source is \<open>csTimestamp\<close> here.
\<close>

record coldStartData =
  requestId :: string
  csTimestamp :: nat
  logStream :: string
  initDuration :: "rat option"
  totalDuration :: "rat option"
  memoryUsed :: "nat option"
  memoryAllocated :: "nat option"
  billedDuration :: "rat option"
  events :: "logEvent list"

section \<open>Helper methods\<close>

text \<open>
  \<open>ranges[timeRange] || ranges['24h']\<close>. A property read on an object literal first
  looks at the object's own keys and then at \<open>Object.prototype\<close>, whose twelve
  properties are functions or objects and hence truthy: for such a key the read yields
  that inherited value and the default is not taken.
\<close>

datatype rangeValue = Millis nat | Inherited string

definition objectPrototypeKeys :: "string list" where
  "objectPrototypeKeys =
     [''constructor'', ''__defineGetter__'', ''__defineSetter__'', ''hasOwnProperty'',
      ''__lookupGetter__'', ''__lookupSetter__'', ''isPrototypeOf'',
      ''propertyIsEnumerable'', ''toString'', ''valueOf'', ''__proto__'',
      ''toLocaleString'']"

definition ranges :: "(string \<times> nat) list" where
  "ranges =
     [(''1h'', 60 * 60 * 1000),
      (''6h'', 6 * 60 * 60 * 1000),
      (''24h'', 24 * 60 * 60 * 1000),
      (''7d'', 7 * 24 * 60 * 60 * 1000)]"

definition lookupOr :: "(string \<times> nat) list \<Rightarrow> string \<Rightarrow> nat \<Rightarrow> rangeValue" where
  "lookupOr table key dflt =
     (case map_of table key of
        Some v \<Rightarrow> (if v = 0 then Millis dflt else Millis v)
      | None \<Rightarrow> (if key \<in> set objectPrototypeKeys then Inherited key else Millis dflt))"

definition parseTimeRange :: "string \<Rightarrow> rangeValue" where
  "parseTimeRange timeRange = lookupOr ranges timeRange (24 * 60 * 60 * 1000)"

text \<open>The same method of \<open>LambdaAnalyzer\<close>, whose table has a fifth entry.\<close>

definition analyzerRanges :: "(string \<times> nat) list" where
  "analyzerRanges =
     [(''1h'', 60 * 60 * 1000),
      (''6h'', 6 * 60 * 60 * 1000),
      (''24h'', 24 * 60 * 60 * 1000),
      (''7d'', 7 * 24 * 60 * 60 * 1000),
      (''30d'', 30 * 24 * 60 * 60 * 1000)]"

definition analyzerParseTimeRange :: "string \<Rightarrow> rangeValue" where
  "analyzerParseTimeRange timeRange = lookupOr analyzerRanges timeRange (24 * 60 * 60 * 1000)"

definition calculateColdStartRate :: "nat \<Rightarrow> nat \<Rightarrow> rat" where
  "calculateColdStartRate coldStarts totalInvocations =
     (if totalInvocations = 0 then 0
      else of_int (round ((of_nat coldStarts / of_nat totalInvocations :: rat) * 100 * 100)) / 100)"

text \<open>
  \<open>LambdaAnalyzer.calculateColdStartRate\<close>: there the invocation count is a metric
  value, an average of datapoints, and need not be whole.
\<close>

definition analyzerCalculateColdStartRate :: "nat \<Rightarrow> rat \<Rightarrow> rat" where
  "analyzerCalculateColdStartRate coldStarts invocations =
     (if invocations = 0 then 0
      else of_int (round ((of_nat coldStarts / invocations) * 100 * 100)) / 100)"

definition determineColdStartFrequency ::
  "coldStartData list \<Rightarrow> logEvent list \<Rightarrow> string \<Rightarrow> string" where
  "determineColdStartFrequency coldStartEvents allInvocations timeRange =
     (let coldStartRate = calculateColdStartRate (length coldStartEvents) (length allInvocations)
      in if coldStartRate > 50 then ''Very High (>50%)''
         else if coldStartRate > 25 then ''High (25-50%)''
         else if coldStartRate > 10 then ''Moderate (10-25%)''
         else if coldStartRate > 5 then ''Low (5-10%)''
         else ''Very Low (<5%)'')"

text \<open>
  \<open>LambdaAnalyzer.determineColdStartFrequency\<close> divides without a guard: for a zero
  invocation count the quotient is \<open>Infinity\<close> when there are cold starts, which
  exceeds every threshold, and \<open>NaN\<close> when there are none, which exceeds no threshold.
\<close>

definition analyzerDetermineColdStartFrequency :: "nat \<Rightarrow> rat \<Rightarrow> string" where
  "analyzerDetermineColdStartFrequency coldStarts invocations =
     (if invocations = 0 then (if coldStarts > 0 then ''Very High'' else ''Very Low'')
      else
        (let rate = of_nat coldStarts / invocations
         in if rate > 5 / 10 then ''Very High''
            else if rate > 2 / 10 then ''High''
            else if rate > 1 / 10 then ''Moderate''
            else if rate > 5 / 100 then ''Low''
            else ''Very Low''))"

text \<open>
  \<open>message.match(/RequestId: ([\w-]+)/)\<close>: the leftmost position at which the
  literal \<open>RequestId: \<close> is followed by at least one word character or hyphen; the
  group is the longest run of such characters there.
\<close>

definition isWordChar :: "char \<Rightarrow> bool" where
  "isWordChar c =
     ((CHR ''a'' \<le> c \<and> c \<le> CHR ''z'') \<or> (CHR ''A'' \<le> c \<and> c \<le> CHR ''Z'') \<or>
      (CHR ''0'' \<le> c \<and> c \<le> CHR ''9'') \<or> c = CHR ''_'')"

definition isIdChar :: "char \<Rightarrow> bool" where
  "isIdChar c = (isWordChar c \<or> c = CHR ''-'')"

fun startsWith :: "string \<Rightarrow> string \<Rightarrow> bool" where
  "startsWith s [] = True"
| "startsWith [] (p # ps) = False"
| "startsWith (c # cs) (p # ps) = (c = p \<and> startsWith cs ps)"

definition matchRequestIdAt :: "string \<Rightarrow> string option" where
  "matchRequestIdAt s =
     (if startsWith s ''RequestId: ''
      then (let run = takeWhile isIdChar (drop (length ''RequestId: '') s)
            in if run = [] then None else Some run)
      else None)"

fun matchRequestId :: "string \<Rightarrow> string option" where
  "matchRequestId [] = None"
| "matchRequestId (c # cs) =
     (case matchRequestIdAt (c # cs) of
        Some g \<Rightarrow> Some g
      | None \<Rightarrow> matchRequestId cs)"

definition extractRequestId :: "string \<Rightarrow> string option" where
  "extractRequestId msg = (case matchRequestId msg of Some g \<Rightarrow> Some g | None \<Rightarrow> None)"

text \<open>
  \<open>calculatePercentile\<close>. A read past the end of the array is \<open>undefined\<close>, which
  \<open>Math.round\<close> turns into \<open>NaN\<close>.
\<close>

definition calculatePercentile :: "rat list \<Rightarrow> rat \<Rightarrow> int option" where
  "calculatePercentile sortedArray percentile =
     (let index = \<lceil>(percentile / 100) * of_nat (length sortedArray)\<rceil> - 1;
          i = nat (max 0 index)
      in if i < length sortedArray then Some (round (sortedArray ! i)) else None)"

text \<open>
  \<open>createDurationDistribution\<close>. The object of counters is an association list in the
  order of its keys; \<open>buckets[key]++\<close> is only ever applied to a key that is present.
\<close>

definition increment :: "string \<Rightarrow> (string \<times> nat) list \<Rightarrow> (string \<times> nat) list" where
  "increment key buckets = map (\<lambda>(k, n). if k = key then (k, n + 1) else (k, n)) buckets"

definition createDurationDistribution :: "rat list \<Rightarrow> (string \<times> nat) list" where
  "createDurationDistribution durations =
     fold (\<lambda>duration buckets.
             if duration \<le> 500 then increment ''0-500ms'' buckets
             else if duration \<le> 1000 then increment ''500-1000ms'' buckets
             else if duration \<le> 2000 then increment ''1000-2000ms'' buckets
             else if duration \<le> 5000 then increment ''2000-5000ms'' buckets
             else increment ''5000ms+'' buckets)
       durations
       [(''0-500ms'', 0), (''500-1000ms'', 0), (''1000-2000ms'', 0), (''2000-5000ms'', 0),
        (''5000ms+'', 0)]"

text \<open>
  \<open>checkDeploymentPattern\<close>. The loop over \<open>i = 1 .. length - 1\<close> visits the adjacent
  pairs \<open>(timestamps[i-1], timestamps[i])\<close> from left to right.
\<close>

fun countClusters :: "nat list \<Rightarrow> nat" where
  "countClusters (a # b # ts) =
     (if int b - int a < 60000 then 1 else 0) + countClusters (b # ts)"
| "countClusters ts = 0"

definition checkDeploymentPattern :: "coldStartData list \<Rightarrow> bool" where
  "checkDeploymentPattern coldStartEvents =
     (if length coldStartEvents < 3 then False
      else
        (let timestamps = defaultSort (map csTimestamp coldStartEvents);
             clusters = countClusters timestamps
         in (of_nat clusters :: rat) > of_nat (length timestamps) * (3 / 10)))"

definition checkScalingPattern :: "coldStartData list \<Rightarrow> bool" where
  "checkScalingPattern coldStartEvents = (length coldStartEvents > 10)"

section \<open>Trigger identification\<close>

fun gapsOf :: "nat list \<Rightarrow> int list" where
  "gapsOf (a # b # ts) = (int b - int a) # gapsOf (b # ts)"
| "gapsOf ts = []"

text \<open>
  \<open>gaps.reduce((sum, gap) => sum + gap, 0) / gaps.length\<close>: for an empty list this
  is \<open>0 / 0\<close>, which is \<open>NaN\<close>.
\<close>

definition averageGap :: "int list \<Rightarrow> rat option" where
  "averageGap gaps =
     (if length gaps = 0 then None
      else Some (of_int (sum_list gaps) / of_nat (length gaps)))"

definition identifyTriggers :: "coldStartData list \<Rightarrow> logEvent list \<Rightarrow> string list" where
  "identifyTriggers coldStartEvents allInvocations =
     (let invocationTimes = defaultSort (map timestamp allInvocations);
          gaps = gapsOf invocationTimes;
          avgGap = averageGap gaps;
          triggers = [];
          triggers = (if gtNaN avgGap (15 * 60 * 1000)
                      then triggers @ [''Long idle periods (>15 minutes)''] else triggers);
          triggers = (if gtNaN avgGap (5 * 60 * 1000)
                      then triggers @ [''Moderate idle periods (5-15 minutes)''] else triggers);
          deploymentPattern = checkDeploymentPattern coldStartEvents;
          triggers = (if deploymentPattern
                      then triggers @ [''Function deployments/updates''] else triggers);
          scalingPattern = checkScalingPattern coldStartEvents;
          triggers = (if scalingPattern
                      then triggers @ [''Auto-scaling events''] else triggers)
      in if length triggers > 0 then triggers else [''Normal Lambda lifecycle''])"

section \<open>Statistics\<close>

record percentiles =
  p50 :: "int option"
  p90 :: "int option"
  p95 :: "int option"
  p99 :: "int option"

record statistics =
  count :: nat
  percentiles :: percentiles
  distribution :: "(string \<times> nat) list"

definition generateStatistics :: "coldStartData list \<Rightarrow> rat list \<Rightarrow> statistics" where
  "generateStatistics coldStartEvents durations =
     (if length durations = 0
      then \<lparr>count = 0,
            percentiles = \<lparr>p50 = Some 0, p90 = Some 0, p95 = Some 0, p99 = Some 0\<rparr>,
            distribution = []\<rparr>
      else
        (let sortedDurations = sort durations;
             percentiles = \<lparr>p50 = calculatePercentile sortedDurations 50,
                            p90 = calculatePercentile sortedDurations 90,
                            p95 = calculatePercentile sortedDurations 95,
                            p99 = calculatePercentile sortedDurations 99\<rparr>;
             distribution = createDurationDistribution durations
         in \<lparr>count = length coldStartEvents,
             percentiles = percentiles,
             distribution = distribution\<rparr>))"

section \<open>The log source and the environment\<close>

text \<open>
  A request to the log source (\<open>FilterLogEventsCommand\<close>) and its response. A start
  time that is \<open>NaN\<close> is \<open>None\<close>; the fields \<open>events\<close> and \<open>nextToken\<close> of a
  response may be absent and are \<open>respEvents\<close> and \<open>respNextToken\<close> here.
\<close>

record request =
  logGroupName :: string
  startTime :: "int option"
  endTime :: int
  filterPattern :: string
  nextToken :: "string option"

record response =
  respEvents :: "logEvent list option"
  respNextToken :: "string option"

datatype error = ServiceError string | RangeError

text \<open>
  What the tracker takes from outside: \<open>send\<close> is \<open>logsClient.send\<close>, which returns
  a response or throws; \<open>matchInitDuration\<close> and \<open>matchReport\<close> stand for a match of
  the patterns \<open>coldStartPatterns.initDuration\<close> and \<open>coldStartPatterns.report\<close>
  followed by \<open>parseFloat\<close> and \<open>parseInt\<close> of the groups that are read (duration,
  billed duration, memory size, maximal memory used), the parsed numbers being finite;
  \<open>getHours\<close> is the local hour
  of an epoch time, a number below 24; \<open>toLocaleTimeString\<close> is the local
  formatting of a time; \<open>maxArguments\<close> is the largest number of arguments the
  engine accepts in one call, a limit of the engine and not of the program.
\<close>

record environment =
  send :: "request \<Rightarrow> error + response"
  matchInitDuration :: "string \<Rightarrow> rat option"
  matchReport :: "string \<Rightarrow> (rat \<times> rat \<times> nat \<times> nat) option"
  getHours :: "nat \<Rightarrow> nat"
  toLocaleTimeString :: "rat option \<Rightarrow> string"
  maxArguments :: nat

text \<open>
  \<open>Math.max(...xs)\<close> and \<open>Math.min(...xs)\<close> pass every element of the array as an
  argument of one call: with more elements than the engine accepts the call throws a
  \<open>RangeError\<close>. Both are only called on arrays that are not empty.
\<close>

definition mathMax :: "environment \<Rightarrow> ('a :: linorder) list \<Rightarrow> error + 'a" where
  "mathMax env xs = (if length xs > maxArguments env then Inl RangeError else Inr (Max (set xs)))"

definition mathMin :: "environment \<Rightarrow> ('a :: linorder) list \<Rightarrow> error + 'a" where
  "mathMin env xs = (if length xs > maxArguments env then Inl RangeError else Inr (Min (set xs)))"

section \<open>Fetching and extraction\<close>

definition eventsOrEmpty :: "error + response \<Rightarrow> logEvent list" where
  "eventsOrEmpty r =
     (case r of
        Inl e \<Rightarrow> []
      | Inr resp \<Rightarrow> (case respEvents resp of Some evs \<Rightarrow> evs | None \<Rightarrow> []))"

definition getRelatedEvents :: "environment \<Rightarrow> string \<Rightarrow> string \<Rightarrow> nat \<Rightarrow> logEvent list" where
  "getRelatedEvents env logGroup reqId ts =
     (let endT = int ts + 30000
      in eventsOrEmpty
           (send env \<lparr>logGroupName = logGroup, startTime = Some (int ts), endTime = endT,
                      filterPattern = ''\"'' @ reqId @ ''\"'', nextToken = None\<rparr>))"

definition getAllInvocations ::
  "environment \<Rightarrow> string \<Rightarrow> int option \<Rightarrow> int \<Rightarrow> logEvent list" where
  "getAllInvocations env logGroup startT endT =
     eventsOrEmpty
       (send env \<lparr>logGroupName = logGroup, startTime = startT, endTime = endT,
                  filterPattern = ''\"START RequestId\"'', nextToken = None\<rparr>)"

definition mergeRelatedEvent :: "environment \<Rightarrow> logEvent \<Rightarrow> coldStartData \<Rightarrow> coldStartData" where
  "mergeRelatedEvent env event coldStart =
     (let coldStart = coldStart\<lparr>events := events coldStart @ [event]\<rparr>;
          coldStart = (case matchInitDuration env (message event) of
                         Some d \<Rightarrow> coldStart\<lparr>initDuration := Some d\<rparr>
                       | None \<Rightarrow> coldStart)
      in case matchReport env (message event) of
           Some (dur, billed, allocated, used) \<Rightarrow>
             coldStart\<lparr>totalDuration := Some dur, billedDuration := Some billed,
                        memoryAllocated := Some allocated, memoryUsed := Some used\<rparr>
         | None \<Rightarrow> coldStart)"

definition extractColdStartData ::
  "environment \<Rightarrow> logEvent \<Rightarrow> string \<Rightarrow> coldStartData option" where
  "extractColdStartData env initEvent logGroup =
     (case extractRequestId (message initEvent) of
        None \<Rightarrow> None
      | Some reqId \<Rightarrow>
          (let relatedEvents = getRelatedEvents env logGroup reqId (timestamp initEvent);
               coldStart = \<lparr>requestId = reqId,
                            csTimestamp = timestamp initEvent,
                            logStream = logStreamName initEvent,
                            initDuration = None,
                            totalDuration = None,
                            memoryUsed = None,
                            memoryAllocated = None,
                            billedDuration = None,
                            events = [initEvent]\<rparr>
           in Some (fold (mergeRelatedEvent env) relatedEvents coldStart)))"

text \<open>The loop over the events of one page.\<close>

definition collectColdStarts ::
  "environment \<Rightarrow> string \<Rightarrow> logEvent list \<Rightarrow> coldStartData list \<Rightarrow> coldStartData list" where
  "collectColdStarts env logGroup evs coldStartEvents =
     fold (\<lambda>event acc.
             case extractColdStartData env event logGroup of
               Some coldStart \<Rightarrow> acc @ [coldStart]
             | None \<Rightarrow> acc)
       evs coldStartEvents"

definition truthy :: "string option \<Rightarrow> bool" where
  "truthy token = (case token of None \<Rightarrow> False | Some t \<Rightarrow> t \<noteq> [])"

text \<open>
  The paging loop of \<open>getColdStartEvents\<close>. A failing request ends the loop with what
  has been collected. A log source that returns a continuation token forever keeps
  the loop running: the result \<open>None\<close> says that the loop does not return.
\<close>

partial_function (option) fetchColdStartPages ::
  "environment \<Rightarrow> string \<Rightarrow> int option \<Rightarrow> int \<Rightarrow> string option \<Rightarrow> coldStartData list
     \<Rightarrow> coldStartData list option" where
  "fetchColdStartPages env logGroup startT endT token coldStartEvents =
     (case send env \<lparr>logGroupName = logGroup, startTime = startT, endTime = endT,
                     filterPattern = ''\"INIT_START\"'', nextToken = token\<rparr> of
        Inl e \<Rightarrow> Some coldStartEvents
      | Inr resp \<Rightarrow>
          (if truthy (respNextToken resp)
           then fetchColdStartPages env logGroup startT endT (respNextToken resp)
                  (case respEvents resp of
                     Some evs \<Rightarrow> collectColdStarts env logGroup evs coldStartEvents
                   | None \<Rightarrow> coldStartEvents)
           else Some (case respEvents resp of
                        Some evs \<Rightarrow> collectColdStarts env logGroup evs coldStartEvents
                      | None \<Rightarrow> coldStartEvents)))"

definition getColdStartEvents ::
  "environment \<Rightarrow> string \<Rightarrow> int option \<Rightarrow> int \<Rightarrow> coldStartData list option" where
  "getColdStartEvents env logGroup startT endT =
     fetchColdStartPages env logGroup startT endT None []"

section \<open>Pattern analysis\<close>

text \<open>
  The fields that an analysis and the result of \<open>trackColdStarts\<close> have in common
  are the record \<open>analysisCore\<close>; durations in it are rounded to whole milliseconds.
  The analysis of a non-empty list of cold starts also carries \<open>hourlyDistribution\<close>.
\<close>

record analysisCore =
  avgDuration :: int
  maxDuration :: int
  minDuration :: int
  peakHours :: "string list"
  frequency :: string
  triggers :: "string list"
  patterns :: "string list"
  statistics :: statistics

record analysis = analysisCore +
  hourlyDistribution :: "nat list option"

definition getEmptyAnalysis :: analysis where
  "getEmptyAnalysis =
     \<lparr>avgDuration = 0,
      maxDuration = 0,
      minDuration = 0,
      peakHours = [],
      frequency = ''No cold starts detected'',
      triggers = [],
      patterns = [],
      statistics = \<lparr>count = 0,
                     percentiles = \<lparr>p50 = Some 0, p90 = Some 0, p95 = Some 0, p99 = Some 0\<rparr>,
                     distribution = []\<rparr>,
      hourlyDistribution = None\<rparr>"

definition analyzeHourlyDistribution :: "environment \<Rightarrow> coldStartData list \<Rightarrow> nat list" where
  "analyzeHourlyDistribution env coldStartEvents =
     fold (\<lambda>event distribution.
             (let hour = getHours env (csTimestamp event)
              in distribution[hour := distribution ! hour + 1]))
       coldStartEvents (replicate 24 0)"

definition padStart :: "string \<Rightarrow> nat \<Rightarrow> char \<Rightarrow> string" where
  "padStart s n c = replicate (n - length s) c @ s"

text \<open>
  \<open>findPeakHours\<close>. The comparator \<open>b.count - a.count\<close> orders by descending
  count, and the sort is stable.
\<close>

definition findPeakHours :: "nat list \<Rightarrow> string list" where
  "findPeakHours hourly =
     (let hoursWithCounts =
            take 3
              (sort_key (\<lambda>(hour, n). - int n)
                 (filter (\<lambda>(hour, n). n > 0)
                    (map (\<lambda>(n, hour). (hour, n)) (zip hourly [0 ..< length hourly]))))
      in map (\<lambda>(hour, n). padStart (toString hour) 2 (CHR ''0'') @ '':00'') hoursWithCounts)"

fun join :: "string \<Rightarrow> string list \<Rightarrow> string" where
  "join sep [] = []"
| "join sep [x] = x"
| "join sep (x # y # xs) = x @ sep @ join sep (y # xs)"

text \<open>The elements of a \<open>Set\<close> built from a list, in the order of first insertion.\<close>

definition uniqueInOrder :: "nat list \<Rightarrow> nat list" where
  "uniqueInOrder xs = rev (remdups (rev xs))"

definition analyzeTimePatterns :: "environment \<Rightarrow> coldStartData list \<Rightarrow> string option" where
  "analyzeTimePatterns env coldStartEvents =
     (let hours = map (\<lambda>event. getHours env (csTimestamp event)) coldStartEvents;
          uniqueHours = uniqueInOrder hours
      in if length uniqueHours \<le> 3
         then Some (''Cold starts concentrated in '' @ toString (length uniqueHours) @
                    '' hour(s): '' @ join '', '' (map toString uniqueHours))
         else None)"

text \<open>\<open>calculateVariance\<close>; of no values it is \<open>NaN\<close>.\<close>

definition calculateVariance :: "rat list \<Rightarrow> rat option" where
  "calculateVariance vals =
     (if length vals = 0 then None
      else
        (let mean = sum_list vals / of_nat (length vals);
             squaredDiffs = map (\<lambda>v. (v - mean) ^ 2) vals
         in Some (sum_list squaredDiffs / of_nat (length vals))))"

fun ltNaN :: "rat option \<Rightarrow> rat \<Rightarrow> bool" where
  "ltNaN None c = False"
| "ltNaN (Some x) c = (x < c)"

definition notNull :: "'a option list \<Rightarrow> 'a list" where
  "notNull xs = map the (filter (\<lambda>x. x \<noteq> None) xs)"

definition analyzeDurationPatterns :: "coldStartData list \<Rightarrow> string option" where
  "analyzeDurationPatterns coldStartEvents =
     (let durations = notNull (map initDuration coldStartEvents)
      in if length durations = 0 then None
         else
           (let variance = calculateVariance durations
            in if ltNaN variance 100 then Some ''Consistent cold start durations''
               else if gtNaN variance 1000
               then Some ''Highly variable cold start durations - investigate initialization code''
               else Some ''Moderate variation in cold start durations''))"

definition analyzeMemoryPatterns ::
  "environment \<Rightarrow> coldStartData list \<Rightarrow> error + string option" where
  "analyzeMemoryPatterns env coldStartEvents =
     (let memoryUsages = notNull (map memoryUsed coldStartEvents)
      in if length memoryUsages = 0 then Inr None
         else
           (let avgMemory = (of_nat (sum_list memoryUsages) :: rat) / of_nat (length memoryUsages)
            in case mathMax env memoryUsages of
                 Inl e \<Rightarrow> Inl e
               | Inr maxMemory \<Rightarrow>
                   Inr (if of_nat maxMemory > avgMemory * (15 / 10)
                        then Some ''Variable memory usage during cold starts''
                        else Some ''Consistent memory usage pattern'')))"

definition pushIf :: "string option \<Rightarrow> string list \<Rightarrow> string list" where
  "pushIf p ps = (case p of Some x \<Rightarrow> ps @ [x] | None \<Rightarrow> ps)"

definition identifyPatterns ::
  "environment \<Rightarrow> coldStartData list \<Rightarrow> string \<Rightarrow> error + string list" where
  "identifyPatterns env coldStartEvents timeRange =
     (let patterns = [];
          patterns = pushIf (analyzeTimePatterns env coldStartEvents) patterns;
          patterns = pushIf (analyzeDurationPatterns coldStartEvents) patterns
      in case analyzeMemoryPatterns env coldStartEvents of
           Inl e \<Rightarrow> Inl e
         | Inr memoryPattern \<Rightarrow> Inr (pushIf memoryPattern patterns))"

text \<open>
  \<open>analyzeColdStartPatterns\<close>. The steps run in the order of the source; the first
  one that throws ends the analysis with its error.
\<close>

definition analyzeColdStartPatterns ::
  "environment \<Rightarrow> coldStartData list \<Rightarrow> logEvent list \<Rightarrow> string \<Rightarrow> error + analysis" where
  "analyzeColdStartPatterns env coldStartEvents allInvocations timeRange =
     (if length coldStartEvents = 0 then Inr getEmptyAnalysis
      else
        (let durations = notNull (map initDuration coldStartEvents);
             avgD = (if length durations > 0
                     then sum_list durations / of_nat (length durations) else 0)
         in case (if length durations > 0 then mathMax env durations else Inr 0) of
              Inl e \<Rightarrow> Inl e
            | Inr maxD \<Rightarrow>
               (case (if length durations > 0 then mathMin env durations else Inr 0) of
                  Inl e \<Rightarrow> Inl e
                | Inr minD \<Rightarrow>
                   (let hourly = analyzeHourlyDistribution env coldStartEvents;
                        peak = findPeakHours hourly;
                        freq = determineColdStartFrequency coldStartEvents allInvocations
                                 timeRange;
                        trig = identifyTriggers coldStartEvents allInvocations
                    in case identifyPatterns env coldStartEvents timeRange of
                         Inl e \<Rightarrow> Inl e
                       | Inr pats \<Rightarrow>
                          (let stats = generateStatistics coldStartEvents durations
                           in Inr \<lparr>avgDuration = round avgD,
                                   maxDuration = round maxD,
                                   minDuration = round minD,
                                   peakHours = peak,
                                   frequency = freq,
                                   triggers = trig,
                                   patterns = pats,
                                   statistics = stats,
                                   hourlyDistribution = Some hourly\<rparr>)))))"

section \<open>Recommendations, timeline and the tracking operation\<close>

fun includesStr :: "string \<Rightarrow> string \<Rightarrow> bool" where
  "includesStr [] sub = (sub = [])"
| "includesStr (c # cs) sub = (startsWith (c # cs) sub \<or> includesStr cs sub)"

definition generateRecommendations :: "analysis \<Rightarrow> string list" where
  "generateRecommendations a =
     (let recs = [];
          recs = (if includesStr (frequency a) ''High'' \<or> includesStr (frequency a) ''Very High''
                  then recs @
                    [''Consider implementing Provisioned Concurrency to reduce cold starts'',
                     ''Optimize function initialization code to reduce cold start duration'']
                  else recs);
          recs = (if avgDuration a > 2000
                  then recs @
                    [''Reduce deployment package size by removing unused dependencies'',
                     ''Use Lambda layers for shared libraries and dependencies'',
                     ''Optimize initialization code - move heavy operations outside the handler'']
                  else recs);
          recs = (if length (peakHours a) > 0
                  then recs @
                    [''Consider scheduled provisioned concurrency during peak hours: '' @
                     join '', '' (peakHours a)]
                  else recs);
          recs = (if ''Long idle periods'' \<in> set (triggers a)
                  then recs @
                    [''Implement keep-warm strategies or use EventBridge scheduled events'']
                  else recs)
      in recs @
           [''Consider using ARM-based Graviton2 processors for better price-performance'',
            ''Ensure you're using the latest runtime version for optimal performance''])"

record period =
  periodStart :: "rat option"
  periodEnd :: "rat option"

text \<open>
  \<open>getTimelinePeriods\<close>, with the current time as an argument. Arithmetic on a range
  value that is not a number gives \<open>NaN\<close>.
\<close>

definition getTimelinePeriods :: "nat \<Rightarrow> string \<Rightarrow> period list" where
  "getTimelinePeriods now timeRange =
     (let periodCount = 24
      in case parseTimeRange timeRange of
           Millis rangeMs \<Rightarrow>
             (let start = (of_nat now :: rat) - of_nat rangeMs;
                  periodDuration = (of_nat rangeMs :: rat) / of_nat periodCount
              in map (\<lambda>i. \<lparr>periodStart = Some (start + of_nat i * periodDuration),
                           periodEnd = Some (start + (of_nat i + 1) * periodDuration)\<rparr>)
                   [0 ..< periodCount])
         | Inherited key \<Rightarrow>
             map (\<lambda>i. \<lparr>periodStart = None, periodEnd = None\<rparr>) [0 ..< periodCount])"

record timelineEntry =
  time :: string
  coldStarts :: nat
  duration :: int

definition inPeriod :: "period \<Rightarrow> coldStartData \<Rightarrow> bool" where
  "inPeriod p event =
     ((case periodStart p of None \<Rightarrow> False | Some s \<Rightarrow> of_nat (csTimestamp event) \<ge> s) \<and>
      (case periodEnd p of None \<Rightarrow> False | Some e \<Rightarrow> of_nat (csTimestamp event) < e))"

definition createTimeline ::
  "environment \<Rightarrow> nat \<Rightarrow> coldStartData list \<Rightarrow> string \<Rightarrow> timelineEntry list" where
  "createTimeline env now coldStartEvents timeRange =
     map (\<lambda>p.
            (let periodEvents = filter (inPeriod p) coldStartEvents;
                 avgD = (if length periodEvents > 0
                         then sum_list (map (\<lambda>event. case initDuration event of
                                                        Some d \<Rightarrow> d | None \<Rightarrow> 0) periodEvents)
                              / of_nat (length periodEvents)
                         else (0 :: rat))
             in \<lparr>time = toLocaleTimeString env (periodStart p),
                 coldStarts = length periodEvents,
                 duration = round avgD\<rparr>))
       (getTimelinePeriods now timeRange)"

text \<open>The result of \<open>trackColdStarts\<close>; its field \<open>total\<close> is \<open>totalColdStarts\<close> here.\<close>

record trackResult = analysisCore +
  totalColdStarts :: nat
  rate :: rat
  recommendations :: "string list"
  timeline :: "timelineEntry list"

definition getEmptyResult :: trackResult where
  "getEmptyResult =
     \<lparr>avgDuration = 0,
      maxDuration = 0,
      minDuration = 0,
      peakHours = [],
      frequency = ''No data'',
      triggers = [],
      patterns = [],
      statistics = \<lparr>count = 0,
                     percentiles = \<lparr>p50 = Some 0, p90 = Some 0, p95 = Some 0, p99 = Some 0\<rparr>,
                     distribution = []\<rparr>,
      totalColdStarts = 0,
      rate = 0,
      recommendations = [''Unable to analyze cold starts - check CloudWatch Logs permissions''],
      timeline = []\<rparr>"

text \<open>
  \<open>trackColdStarts\<close>, with the time read by \<open>new Date()\<close> and the later time read
  by \<open>Date.now()\<close> for the timeline as arguments. Every call of \<open>send\<close> is inside a
  handler of its own (in \<open>getColdStartEvents\<close>, \<open>getRelatedEvents\<close> and
  \<open>getAllInvocations\<close>), so no failure of the log source reaches the handler of
  \<open>trackColdStarts\<close>, the only place that returns \<open>getEmptyResult\<close>; what reaches
  it is an error thrown by the analysis. The result is \<open>None\<close> when the paging loop
  does not return.
\<close>

definition trackColdStarts ::
  "environment \<Rightarrow> nat \<Rightarrow> nat \<Rightarrow> string \<Rightarrow> string \<Rightarrow> trackResult option" where
  "trackColdStarts env now timelineNow functionName timeRange =
     (let timeRangeMs = parseTimeRange timeRange;
          endT = int now;
          startT = (case timeRangeMs of
                      Millis ms \<Rightarrow> Some (endT - int ms)
                    | Inherited key \<Rightarrow> None);
          logGroup = ''/aws/lambda/'' @ functionName
      in case getColdStartEvents env logGroup startT endT of
           None \<Rightarrow> None
         | Some coldStartEvents \<Rightarrow>
             (let allInvocations = getAllInvocations env logGroup startT endT
              in case analyzeColdStartPatterns env coldStartEvents allInvocations timeRange of
                   Inl e \<Rightarrow> Some getEmptyResult
                 | Inr a \<Rightarrow>
                     Some
                       \<lparr>avgDuration = avgDuration a,
                        maxDuration = maxDuration a,
                        minDuration = minDuration a,
                        peakHours = peakHours a,
                        frequency = frequency a,
                        triggers = triggers a,
                        patterns = patterns a,
                        statistics = statistics a,
                        totalColdStarts = length coldStartEvents,
                        rate = calculateColdStartRate (length coldStartEvents)
                                 (length allInvocations),
                        recommendations = generateRecommendations a,
                        timeline = createTimeline env timelineNow coldStartEvents
                                     timeRange\<rparr>))"

section \<open>Notions of the specification\<close>

text \<open>
  The index as the specification words it, for comparison with \<open>calculatePercentile\<close>:
  for percentile \<open>p\<close> over \<open>n\<close> sorted samples, \<open>ceil(p/100 * n) - 1\<close>, clamped to
  \<open>[0, n-1]\<close>.
\<close>

definition nearestRankIndex :: "nat \<Rightarrow> nat \<Rightarrow> nat" where
  "nearestRankIndex p n =
     nat (min (int n - 1) (max 0 (\<lceil>(of_nat p / 100 :: rat) * of_nat n\<rceil> - 1)))"

text \<open>
  The number of timestamps of a list that follow their predecessor in the list by less
  than 60 seconds, for comparison with \<open>checkDeploymentPattern\<close>.
\<close>

definition closeSuccessors :: "nat list \<Rightarrow> nat" where
  "closeSuccessors ts = length (filter (\<lambda>(a, b). b < a + 60000) (zip ts (tl ts)))"



section \<open>Example inputs\<close>

text \<open>Concrete inputs at which the properties below are instantiated.\<close>

definition exampleColdStart :: "nat \<Rightarrow> rat option \<Rightarrow> coldStartData" where
  "exampleColdStart ts d =
     \<lparr>requestId = ''req'', csTimestamp = ts, logStream = ''stream'', initDuration = d,
      totalDuration = None, memoryUsed = None, memoryAllocated = None,
      billedDuration = None, events = []\<rparr>"

definition exampleEvent :: "nat \<Rightarrow> string \<Rightarrow> logEvent" where
  "exampleEvent ts msg = \<lparr>timestamp = ts, message = msg, logStreamName = ''stream''\<rparr>"

definition exampleColdStarts :: "coldStartData list" where
  "exampleColdStarts =
     [exampleColdStart 1700000000000 (Some (1207 / 10)),
      exampleColdStart 1700000030000 None,
      exampleColdStart 1700000045000 (Some 80),
      exampleColdStart 1700003600000 (Some 300)]"

text \<open>A log source that refuses every request, and one that has no events.\<close>

definition failingEnv :: environment where
  "failingEnv =
     \<lparr>send = (\<lambda>req. Inl (ServiceError ''AccessDeniedException'')),
      matchInitDuration = (\<lambda>msg. None),
      matchReport = (\<lambda>msg. None),
      getHours = (\<lambda>t. (t div 3600000) mod 24),
      toLocaleTimeString = (\<lambda>t. ''time''),
      maxArguments = 100000\<rparr>"

definition quietEnv :: environment where
  "quietEnv =
     \<lparr>send = (\<lambda>req. Inr \<lparr>respEvents = Some [], respNextToken = None\<rparr>),
      matchInitDuration = (\<lambda>msg. None),
      matchReport = (\<lambda>msg. None),
      getHours = (\<lambda>t. (t div 3600000) mod 24),
      toLocaleTimeString = (\<lambda>t. ''time''),
      maxArguments = 100000\<rparr>"

section \<open>Properties: the cold-start rate\<close>

lemma rate_nonneg: "0 \<le> x \<Longrightarrow> (0::rat) \<le> of_int (round (x::rat)) / 100"
proof -
  assume "0 \<le> x"
  then have "0 \<le> round x" unfolding round_def by (simp add: zero_le_floor)
  then show ?thesis by simp
qed

lemma rate_le_100: "x \<le> 10000 \<Longrightarrow> of_int (round (x::rat)) / 100 \<le> (100::rat)"
proof -
  assume "x \<le> 10000"
  then have "round x \<le> round (10000::rat)" by (rule round_mono)
  then have "round x \<le> 10000" by simp
  then have "(of_int (round x) :: rat) \<le> 10000" by linarith
  then show ?thesis by simp
qed

text \<open>
  C4 (as amended). For all counts the cold-start rate is at least 0, and it is 0 when the
  invocation count is 0, where the division is guarded. It is at most 100 whenever the
  cold starts do not outnumber the invocations; nothing in the computation bounds it
  otherwise. The same holds for the rate of \<open>LambdaAnalyzer\<close>, whose invocation count
  is a non-negative metric value.
\<close>

theorem calculateColdStartRate_range:
  "0 \<le> calculateColdStartRate c t \<and>
   calculateColdStartRate c 0 = 0 \<and>
   (c \<le> t \<longrightarrow> calculateColdStartRate c t \<le> 100) \<and>
   analyzerCalculateColdStartRate c 0 = 0 \<and>
   (0 \<le> m \<longrightarrow> 0 \<le> analyzerCalculateColdStartRate c m) \<and>
   (of_nat c \<le> m \<longrightarrow> analyzerCalculateColdStartRate c m \<le> 100)"
proof (intro conjI impI)
  show "0 \<le> calculateColdStartRate c t"
  proof (cases "t = 0")
    case True then show ?thesis by (simp add: calculateColdStartRate_def)
  next
    case False
    have "(0::rat) \<le> (of_nat c / of_nat t) * 100 * 100" by simp
    then show ?thesis using False unfolding calculateColdStartRate_def
      by (simp only: rate_nonneg if_False)
  qed
  show "calculateColdStartRate c 0 = 0" by (simp add: calculateColdStartRate_def)
  show "calculateColdStartRate c t \<le> 100" if "c \<le> t"
  proof (cases "t = 0")
    case True then show ?thesis by (simp add: calculateColdStartRate_def)
  next
    case False
    with that have "(of_nat c / of_nat t :: rat) \<le> 1" by simp
    then have "(of_nat c / of_nat t :: rat) * 100 * 100 \<le> 10000" by simp
    then show ?thesis using False unfolding calculateColdStartRate_def
      by (simp only: rate_le_100 if_False)
  qed
  show "analyzerCalculateColdStartRate c 0 = 0" by (simp add: analyzerCalculateColdStartRate_def)
  show "0 \<le> analyzerCalculateColdStartRate c m" if "0 \<le> m"
  proof (cases "m = 0")
    case True then show ?thesis by (simp add: analyzerCalculateColdStartRate_def)
  next
    case False
    from that have "(0::rat) \<le> (of_nat c / m) * 100 * 100" by simp
    then show ?thesis using False unfolding analyzerCalculateColdStartRate_def
      by (simp only: rate_nonneg if_False)
  qed
  show "analyzerCalculateColdStartRate c m \<le> 100" if "of_nat c \<le> m"
  proof (cases "m = 0")
    case True then show ?thesis by (simp add: analyzerCalculateColdStartRate_def)
  next
    case False
    with that have "0 < m" by (metis of_nat_0_le_iff order.trans order_le_less)
    with that have "(of_nat c / m :: rat) \<le> 1" by simp
    then have "(of_nat c / m :: rat) * 100 * 100 \<le> 10000" by simp
    then show ?thesis using False unfolding analyzerCalculateColdStartRate_def
      by (simp only: rate_le_100 if_False)
  qed
qed

theorem calculateColdStartRate_range_witness:
  "0 \<le> calculateColdStartRate 1 4 \<and> calculateColdStartRate 1 4 = 25 \<and> calculateColdStartRate 1 4 \<le> 100
   \<and> analyzerCalculateColdStartRate 1 (5/2) = 40 \<and> 0 \<le> analyzerCalculateColdStartRate 1 (5/2) \<and> analyzerCalculateColdStartRate 1 (5/2) \<le> 100"
  using calculateColdStartRate_range [of 1 4 "5/2"]
  by (simp add: calculateColdStartRate_def analyzerCalculateColdStartRate_def)

theorem calculateColdStartRate_above_100:
  "calculateColdStartRate 3 1 = 300 \<and> \<not> calculateColdStartRate 3 1 \<le> 100 \<and>
   analyzerCalculateColdStartRate 3 1 = 300"
  by (simp add: calculateColdStartRate_def analyzerCalculateColdStartRate_def)

section \<open>Properties: frequency classification\<close>

lemma less_round_iff: "(k < round (x::rat)) \<longleftrightarrow> (of_int k * 2 + 1 \<le> x * 2)"
proof -
  have "k < round x \<longleftrightarrow> k + 1 \<le> \<lfloor>x + 1/2\<rfloor>" unfolding round_def by linarith
  also have "\<dots> \<longleftrightarrow> of_int (k + 1) \<le> x + 1/2" by (simp only: le_floor_iff)
  also have "\<dots> \<longleftrightarrow> of_int k * 2 + 1 \<le> x * 2" by (simp add: field_simps)
  finally show ?thesis .
qed

lemma numeral_less_round_iff:
  "(numeral n < round (x::rat)) \<longleftrightarrow> (numeral n * 2 + 1 \<le> x * 2)"
  using less_round_iff [of "numeral n" x] by simp

lemma tracker_frequency:
  "determineColdStartFrequency cs invs tr =
     (if length invs = 0 then ''Very Low (<5%)''
      else
        (let r = (of_nat (length cs) / of_nat (length invs) :: rat) * 100
         in if 50005 / 1000 \<le> r then ''Very High (>50%)''
            else if 25005 / 1000 \<le> r then ''High (25-50%)''
            else if 10005 / 1000 \<le> r then ''Moderate (10-25%)''
            else if 5005 / 1000 \<le> r then ''Low (5-10%)''
            else ''Very Low (<5%)''))"
proof (cases "length invs = 0")
  case True
  then show ?thesis
    by (simp add: determineColdStartFrequency_def calculateColdStartRate_def)
next
  case False
  define x where "x = (of_nat (length cs) / of_nat (length invs) :: rat) * 100 * 100"
  have rate: "calculateColdStartRate (length cs) (length invs) = of_int (round x) / 100"
    using False by (simp add: calculateColdStartRate_def x_def)
  have r: "(of_nat (length cs) / of_nat (length invs) :: rat) * 100 = x / 100"
    by (simp add: x_def)
  have t: "(50 < rat_of_int (round x) / 100) = (50005 / 1000 \<le> x / 100)"
          "(25 < rat_of_int (round x) / 100) = (25005 / 1000 \<le> x / 100)"
          "(10 < rat_of_int (round x) / 100) = (10005 / 1000 \<le> x / 100)"
          "(5 < rat_of_int (round x) / 100) = (5005 / 1000 \<le> x / 100)"
    by (simp_all add: numeral_less_round_iff)
  show ?thesis
    unfolding determineColdStartFrequency_def rate r Let_def t using False by simp
qed

lemma analyzer_frequency:
  "analyzerDetermineColdStartFrequency c m =
     (if m = 0 then (if c = 0 then ''Very Low'' else ''Very High'')
      else
        (let r = (of_nat c / m) * 100
         in if 50 < r then ''Very High''
            else if 20 < r then ''High''
            else if 10 < r then ''Moderate''
            else if 5 < r then ''Low''
            else ''Very Low''))"
proof (cases "m = 0")
  case True
  then show ?thesis by (simp add: analyzerDetermineColdStartFrequency_def)
next
  case False
  have t: "(50 < y * 100) = (5 / 10 < y)" "(20 < y * 100) = (2 / 10 < y)"
          "(10 < y * 100) = (1 / 10 < y)" "(5 < y * 100) = (5 / 100 < y)" for y :: rat
    by linarith+
  show ?thesis
    unfolding analyzerDetermineColdStartFrequency_def Let_def t using False by simp
qed

text \<open>
  C3 (as amended). The tracker classifies the rate after rounding it to two decimals:
  with \<open>r = c / t * 100\<close> for \<open>t > 0\<close>, the class is Very High from \<open>r \<ge> 50.005\<close>,
  else High from \<open>r \<ge> 25.005\<close>, else Moderate from \<open>r \<ge> 10.005\<close>, else Low from
  \<open>r \<ge> 5.005\<close>, else Very Low; for \<open>t = 0\<close> the guarded rate is 0 and the class is
  Very Low. The classifier of \<open>LambdaAnalyzer\<close> compares the unrounded rate with
  50, 20, 10 and 5 percent, and for \<open>t = 0\<close> answers Very High when there are cold
  starts and Very Low when there are none.
\<close>

theorem determineColdStartFrequency_thresholds:
  "determineColdStartFrequency cs invs tr =
     (if length invs = 0 then ''Very Low (<5%)''
      else
        (let r = (of_nat (length cs) / of_nat (length invs) :: rat) * 100
         in if 50005 / 1000 \<le> r then ''Very High (>50%)''
            else if 25005 / 1000 \<le> r then ''High (25-50%)''
            else if 10005 / 1000 \<le> r then ''Moderate (10-25%)''
            else if 5005 / 1000 \<le> r then ''Low (5-10%)''
            else ''Very Low (<5%)'')) \<and>
   analyzerDetermineColdStartFrequency c m =
     (if m = 0 then (if c = 0 then ''Very Low'' else ''Very High'')
      else
        (let r = (of_nat c / m) * 100
         in if 50 < r then ''Very High''
            else if 20 < r then ''High''
            else if 10 < r then ''Moderate''
            else if 5 < r then ''Low''
            else ''Very Low''))"
  using tracker_frequency [of cs invs tr] analyzer_frequency [of c m] by (rule conjI)

theorem determineColdStartFrequency_thresholds_witness:
  "determineColdStartFrequency [exampleColdStart 0 None]
     (replicate 4 (exampleEvent 0 ''START'')) ''24h'' = ''Moderate (10-25%)'' \<and>
   analyzerDetermineColdStartFrequency 1 4 = ''High''"
  using determineColdStartFrequency_thresholds
    [of "[exampleColdStart 0 None]" "replicate 4 (exampleEvent 0 ''START'')" "''24h''" 1 4]
  by simp

theorem determineColdStartFrequency_counterexample:
  "determineColdStartFrequency [exampleColdStart 0 None] [] ''24h'' = ''Very Low (<5%)'' \<and>
   50 < (of_nat 5001 / of_nat 10001 :: rat) * 100 \<and>
   determineColdStartFrequency (replicate 5001 (exampleColdStart 0 None))
     (replicate 10001 (exampleEvent 0 ''START'')) ''24h'' = ''High (25-50%)'' \<and>
   (of_nat 22 / of_nat 100 :: rat) * 100 \<le> 25 \<and>
   analyzerDetermineColdStartFrequency 22 100 = ''High''"
  by (simp add: determineColdStartFrequency_def calculateColdStartRate_def
      analyzerDetermineColdStartFrequency_def numeral_less_round_iff)

section \<open>Properties: the time range\<close>

lemma lookupOr_ranges_default:
  "tr \<notin> {''1h'', ''6h'', ''24h'', ''7d''} \<Longrightarrow> tr \<notin> set objectPrototypeKeys \<Longrightarrow>
   lookupOr ranges tr d = Millis d"
  by (simp add: lookupOr_def ranges_def)

lemma lookupOr_analyzerRanges_default:
  "tr \<notin> {''1h'', ''6h'', ''24h'', ''7d'', ''30d''} \<Longrightarrow> tr \<notin> set objectPrototypeKeys \<Longrightarrow>
   lookupOr analyzerRanges tr d = Millis d"
  by (simp add: lookupOr_def analyzerRanges_def)

lemma parseTimeRange_24h: "parseTimeRange ''24h'' = Millis 86400000"
  by (simp add: parseTimeRange_def lookupOr_def ranges_def)

lemma analyzerParseTimeRange_24h: "analyzerParseTimeRange ''24h'' = Millis 86400000"
  by (simp add: analyzerParseTimeRange_def lookupOr_def analyzerRanges_def)

lemma trackColdStarts_cong:
  assumes "parseTimeRange tr = parseTimeRange tr'"
  shows "trackColdStarts env now tnow fn tr = trackColdStarts env now tnow fn tr'"
proof -
  have f: "determineColdStartFrequency cs invs tr = determineColdStartFrequency cs invs tr'"
    for cs invs
    by (simp add: determineColdStartFrequency_def)
  have g: "identifyPatterns env cs tr = identifyPatterns env cs tr'" for cs
    by (simp add: identifyPatterns_def)
  have a: "analyzeColdStartPatterns env cs invs tr = analyzeColdStartPatterns env cs invs tr'"
    for cs invs
    unfolding analyzeColdStartPatterns_def f g ..
  have t: "createTimeline env tnow cs tr = createTimeline env tnow cs tr'" for cs
    by (simp add: createTimeline_def getTimelinePeriods_def assms)
  show ?thesis
    unfolding trackColdStarts_def a t assms ..
qed

lemma fetch_quiet: "fetchColdStartPages quietEnv lg st et tok acc = Some acc"
  by (subst fetchColdStartPages.simps) (simp add: quietEnv_def truthy_def collectColdStarts_def)

text \<open>
  C2 (as amended). A time-range argument that is not a key of the table of ranges (and is
  not the name of a property inherited from \<open>Object.prototype\<close>) is not rejected:
  \<open>parseTimeRange\<close> substitutes the 24 hour range, 86400000 ms, and the tracking
  operation behaves exactly as for the argument \<open>24h\<close>. No error is raised. The table
  of the tracker has the keys 1h, 6h, 24h and 7d; that of \<open>LambdaAnalyzer\<close> also
  has 30d.
\<close>

theorem unrecognized_timeRange_defaults:
  assumes "tr \<notin> set objectPrototypeKeys"
  shows "(tr \<notin> {''1h'', ''6h'', ''24h'', ''7d''} \<longrightarrow>
            parseTimeRange tr = Millis 86400000 \<and>
            parseTimeRange tr = parseTimeRange ''24h'' \<and>
            trackColdStarts env now tnow fn tr = trackColdStarts env now tnow fn ''24h'') \<and>
         (tr \<notin> {''1h'', ''6h'', ''24h'', ''7d'', ''30d''} \<longrightarrow>
            analyzerParseTimeRange tr = Millis 86400000 \<and>
            analyzerParseTimeRange tr = analyzerParseTimeRange ''24h'')"
proof (intro conjI impI)
  assume u: "tr \<notin> {''1h'', ''6h'', ''24h'', ''7d''}"
  show p: "parseTimeRange tr = Millis 86400000"
    using lookupOr_ranges_default [OF u assms] by (simp add: parseTimeRange_def)
  then show q: "parseTimeRange tr = parseTimeRange ''24h''"
    by (simp only: parseTimeRange_24h)
  then show "trackColdStarts env now tnow fn tr = trackColdStarts env now tnow fn ''24h''"
    by (rule trackColdStarts_cong)
next
  assume u: "tr \<notin> {''1h'', ''6h'', ''24h'', ''7d'', ''30d''}"
  show p: "analyzerParseTimeRange tr = Millis 86400000"
    using lookupOr_analyzerRanges_default [OF u assms] by (simp add: analyzerParseTimeRange_def)
  then show "analyzerParseTimeRange tr = analyzerParseTimeRange ''24h''"
    by (simp only: analyzerParseTimeRange_24h)
qed

theorem unrecognized_timeRange_defaults_witness:
  "parseTimeRange ''30d'' = Millis 86400000 \<and>
   trackColdStarts quietEnv 1700000000000 1700000000500 ''fn'' ''30d'' =
     trackColdStarts quietEnv 1700000000000 1700000000500 ''fn'' ''24h'' \<and>
   analyzerParseTimeRange ''2h'' = Millis 86400000"
proof -
  have k1: "''30d'' \<notin> set objectPrototypeKeys" by (simp add: objectPrototypeKeys_def)
  have k2: "''2h'' \<notin> set objectPrototypeKeys" by (simp add: objectPrototypeKeys_def)
  show ?thesis
    using unrecognized_timeRange_defaults [OF k1, of quietEnv 1700000000000 1700000000500 "''fn''"]
      unrecognized_timeRange_defaults [OF k2, of quietEnv 1700000000000 1700000000500 "''fn''"]
    by simp
qed

theorem unrecognized_timeRange_accepted:
  "''2h'' \<notin> {''1h'', ''6h'', ''24h'', ''7d'', ''30d''} \<and>
   parseTimeRange ''2h'' = Millis 86400000 \<and>
   analyzerParseTimeRange ''2h'' = Millis 86400000 \<and>
   trackColdStarts quietEnv 1700000000000 1700000000500 ''fn'' ''2h'' \<noteq> None \<and>
   trackColdStarts quietEnv 1700000000000 1700000000500 ''fn'' ''2h'' =
     trackColdStarts quietEnv 1700000000000 1700000000500 ''fn'' ''24h''"
proof -
  have p: "parseTimeRange ''2h'' = Millis 86400000"
    by (simp add: parseTimeRange_def lookupOr_def ranges_def objectPrototypeKeys_def)
  have q: "analyzerParseTimeRange ''2h'' = Millis 86400000"
    by (simp add: analyzerParseTimeRange_def lookupOr_def analyzerRanges_def objectPrototypeKeys_def)
  have r: "trackColdStarts quietEnv 1700000000000 1700000000500 ''fn'' ''2h'' \<noteq> None"
    by (simp add: trackColdStarts_def getColdStartEvents_def fetch_quiet Let_def
        analyzeColdStartPatterns_def)
  have s: "trackColdStarts quietEnv 1700000000000 1700000000500 ''fn'' ''2h'' =
     trackColdStarts quietEnv 1700000000000 1700000000500 ''fn'' ''24h''"
    by (rule trackColdStarts_cong) (simp only: p parseTimeRange_24h)
  show ?thesis using p q r s by simp
qed

section \<open>Properties: the duration distribution\<close>

lemma fold_buckets:
  "fold (\<lambda>duration buckets.
             if duration \<le> 500 then increment ''0-500ms'' buckets
             else if duration \<le> 1000 then increment ''500-1000ms'' buckets
             else if duration \<le> 2000 then increment ''1000-2000ms'' buckets
             else if duration \<le> 5000 then increment ''2000-5000ms'' buckets
             else increment ''5000ms+'' buckets) (ds :: rat list)
     [(''0-500ms'', a), (''500-1000ms'', b), (''1000-2000ms'', c), (''2000-5000ms'', d),
      (''5000ms+'', e)] =
     [(''0-500ms'', a + length (filter (\<lambda>x. x \<le> 500) ds)),
      (''500-1000ms'', b + length (filter (\<lambda>x. 500 < x \<and> x \<le> 1000) ds)),
      (''1000-2000ms'', c + length (filter (\<lambda>x. 1000 < x \<and> x \<le> 2000) ds)),
      (''2000-5000ms'', d + length (filter (\<lambda>x. 2000 < x \<and> x \<le> 5000) ds)),
      (''5000ms+'', e + length (filter (\<lambda>x. 5000 < x) ds))]"
proof (induction ds arbitrary: a b c d e)
  case Nil
  show ?case by simp
next
  case (Cons x xs)
  consider "x \<le> 500" | "500 < x" "x \<le> 1000" | "1000 < x" "x \<le> 2000"
    | "2000 < x" "x \<le> 5000" | "5000 < x"
    by linarith
  then show ?case
  proof cases
    case 1
    then show ?thesis by (simp add: increment_def Cons.IH)
  next
    case 2
    then show ?thesis by (simp add: increment_def Cons.IH)
  next
    case 3
    then show ?thesis by (simp add: increment_def Cons.IH)
  next
    case 4
    then show ?thesis by (simp add: increment_def Cons.IH)
  next
    case 5
    then show ?thesis by (simp add: increment_def Cons.IH)
  qed
qed

lemma bucket_partition:
  "length (filter (\<lambda>x. x \<le> 500) ds) +
   length (filter (\<lambda>x. 500 < x \<and> x \<le> 1000) ds) +
   length (filter (\<lambda>x. 1000 < x \<and> x \<le> 2000) ds) +
   length (filter (\<lambda>x. 2000 < x \<and> x \<le> 5000) ds) +
   length (filter (\<lambda>x. 5000 < x) ds) = length (ds :: rat list)"
  by (induction ds) auto

text \<open>
  C6. Every duration sample is counted in exactly one of the five buckets: up to 500 in
  \<open>0-500ms\<close>, above 500 and up to 1000 in \<open>500-1000ms\<close>, above 1000 and up to 2000
  in \<open>1000-2000ms\<close>, above 2000 and up to 5000 in \<open>2000-5000ms\<close>, above 5000 in
  \<open>5000ms+\<close>; a sample on a boundary is in the lower bucket. The counts add up to
  the number of samples.
\<close>

theorem createDurationDistribution_buckets:
  "createDurationDistribution ds =
     [(''0-500ms'', length (filter (\<lambda>x. x \<le> 500) ds)),
      (''500-1000ms'', length (filter (\<lambda>x. 500 < x \<and> x \<le> 1000) ds)),
      (''1000-2000ms'', length (filter (\<lambda>x. 1000 < x \<and> x \<le> 2000) ds)),
      (''2000-5000ms'', length (filter (\<lambda>x. 2000 < x \<and> x \<le> 5000) ds)),
      (''5000ms+'', length (filter (\<lambda>x. 5000 < x) ds))] \<and>
   sum_list (map snd (createDurationDistribution ds)) = length ds"
proof -
  have eq: "createDurationDistribution ds =
     [(''0-500ms'', length (filter (\<lambda>x. x \<le> 500) ds)),
      (''500-1000ms'', length (filter (\<lambda>x. 500 < x \<and> x \<le> 1000) ds)),
      (''1000-2000ms'', length (filter (\<lambda>x. 1000 < x \<and> x \<le> 2000) ds)),
      (''2000-5000ms'', length (filter (\<lambda>x. 2000 < x \<and> x \<le> 5000) ds)),
      (''5000ms+'', length (filter (\<lambda>x. 5000 < x) ds))]"
    unfolding createDurationDistribution_def fold_buckets by simp
  have "sum_list (map snd (createDurationDistribution ds)) = length ds"
    unfolding eq using bucket_partition [of ds] by simp
  with eq show ?thesis by simp
qed

theorem createDurationDistribution_buckets_witness:
  "createDurationDistribution [500, 501, 1000, 7000, 1/2] =
     [(''0-500ms'', 2), (''500-1000ms'', 2), (''1000-2000ms'', 0), (''2000-5000ms'', 0),
      (''5000ms+'', 1)]"
  using createDurationDistribution_buckets [of "[500, 501, 1000, 7000, 1/2]"]
  by simp

section \<open>Properties: percentiles\<close>

lemma rank_le:
  assumes "p \<le> 100"
  shows "\<lceil>(of_nat p / 100 :: rat) * of_nat n\<rceil> \<le> int n"
proof -
  have "(of_nat p :: rat) \<le> 100" using assms by simp
  then have "(of_nat p / 100 :: rat) \<le> 1" by simp
  then have "(of_nat p / 100 :: rat) * of_nat n \<le> 1 * of_nat n"
    by (rule mult_right_mono) simp
  then have "(of_nat p / 100 :: rat) * of_nat n \<le> of_int (int n)" by simp
  then show ?thesis by (rule ceiling_le)
qed


lemma nearestRankIndex_less: "0 < n \<Longrightarrow> nearestRankIndex p n < n"
  unfolding nearestRankIndex_def by linarith

lemma nearestRankIndex_unclamped:
  assumes "p \<le> 100" "0 < n"
  shows "nearestRankIndex p n = nat (max 0 (\<lceil>(of_nat p / 100 :: rat) * of_nat n\<rceil> - 1))"
  using rank_le [OF assms(1), of n] assms(2) unfolding nearestRankIndex_def by linarith


lemma calculatePercentile_rank:
  assumes "p \<le> 100" "xs \<noteq> []"
  shows "calculatePercentile xs (of_nat p) = Some (round (xs ! nearestRankIndex p (length xs)))"
proof -
  have n: "0 < length xs" using assms(2) by simp
  have i: "nat (max 0 (\<lceil>(of_nat p / 100 :: rat) * of_nat (length xs)\<rceil> - 1)) =
      nearestRankIndex p (length xs)"
    using nearestRankIndex_unclamped [OF assms(1) n] by simp
  show ?thesis
    unfolding calculatePercentile_def Let_def i
    using nearestRankIndex_less [OF n] by simp
qed

lemma generateStatistics_percentiles:
  assumes "ds \<noteq> []"
  shows "percentiles (generateStatistics cs ds) =
     \<lparr>p50 = Some (round (sort ds ! nearestRankIndex 50 (length ds))),
      p90 = Some (round (sort ds ! nearestRankIndex 90 (length ds))),
      p95 = Some (round (sort ds ! nearestRankIndex 95 (length ds))),
      p99 = Some (round (sort ds ! nearestRankIndex 99 (length ds)))\<rparr>"
proof -
  have s: "sort ds \<noteq> []" using assms by (metis length_sort length_0_conv)
  have c: "calculatePercentile (sort ds) (of_nat p) =
      Some (round (sort ds ! nearestRankIndex p (length ds)))" if "p \<le> 100" for p
    using calculatePercentile_rank [OF that s] by simp
  show ?thesis
    using assms c [of 50] c [of 90] c [of 95] c [of 99]
    by (simp add: generateStatistics_def Let_def)
qed

text \<open>
  C1 (as amended). For every non-empty list of \<open>n\<close> samples and every percentile \<open>p\<close>
  among 50, 90, 95 and 99, the percentile computed over the samples sorted ascending
  is the sample at the nearest-rank index \<open>ceil(p/100 * n) - 1\<close> clamped to
  \<open>[0, n-1]\<close>, rounded to the nearest whole number (a half rounds up); the value
  returned is that rounded number, not the sample itself. The index never needs the
  upper clamp.
\<close>

theorem percentile_nearest_rank_rounded:
  assumes "ds \<noteq> []" and "p \<in> {50, 90, 95, 99}"
  shows "calculatePercentile (sort ds) (of_nat p) =
           Some (round (sort ds ! nearestRankIndex p (length ds))) \<and>
         nearestRankIndex p (length ds) \<le> length ds - 1 \<and>
         percentiles (generateStatistics cs ds) =
           \<lparr>p50 = Some (round (sort ds ! nearestRankIndex 50 (length ds))),
            p90 = Some (round (sort ds ! nearestRankIndex 90 (length ds))),
            p95 = Some (round (sort ds ! nearestRankIndex 95 (length ds))),
            p99 = Some (round (sort ds ! nearestRankIndex 99 (length ds)))\<rparr>"
proof -
  have s: "sort ds \<noteq> []" using assms(1) by (metis length_sort length_0_conv)
  have p: "p \<le> 100" using assms(2) by auto
  have n: "0 < length ds" using assms(1) by simp
  have a: "calculatePercentile (sort ds) (of_nat p) =
           Some (round (sort ds ! nearestRankIndex p (length ds)))"
    using calculatePercentile_rank [OF p s] by simp
  have b: "nearestRankIndex p (length ds) \<le> length ds - 1"
    using nearestRankIndex_less [OF n, of p] by linarith
  from a b generateStatistics_percentiles [OF assms(1), of cs] show ?thesis by simp
qed

theorem percentile_nearest_rank_rounded_witness:
  "calculatePercentile (sort [1207 / 10, 80, 300]) (of_nat 50) = Some 121 \<and>
   nearestRankIndex 50 (length [1207 / 10, 80, 300 :: rat]) = 1 \<and>
   p99 (percentiles (generateStatistics [] [1207 / 10, 80, 300])) = Some 300"
proof -
  have a: "[1207 / 10, 80, 300] \<noteq> ([] :: rat list)" by simp
  have b: "(50 :: nat) \<in> {50, 90, 95, 99}" by simp
  have i: "nearestRankIndex 50 (length [1207 / 10, 80, 300 :: rat]) = 1"
          "nearestRankIndex 99 (length [1207 / 10, 80, 300 :: rat]) = 2"
    by code_simp+
  have s: "sort [1207 / 10, 80, 300 :: rat] = [80, 1207 / 10, 300]" by simp
  have r: "round (1207 / 10 :: rat) = 121" "round (300 :: rat) = 300" by code_simp+
  from percentile_nearest_rank_rounded [OF a b, of "[]"]
  have "calculatePercentile (sort [1207 / 10, 80, 300]) (of_nat 50) = Some (round (1207 / 10 :: rat))"
    and "p99 (percentiles (generateStatistics [] [1207 / 10, 80, 300])) = Some (round (300 :: rat))"
    unfolding i s by simp_all
  then show ?thesis unfolding r using i(1) by simp
qed

theorem percentile_not_the_sample:
  "calculatePercentile [1207 / 10] 50 = Some 121 \<and>
   [1207 / 10 :: rat] ! nearestRankIndex 50 (length [1207 / 10 :: rat]) = 1207 / 10 \<and>
   (of_int 121 :: rat) \<noteq> 1207 / 10"
proof -
  have a: "calculatePercentile [1207 / 10] 50 = Some 121" by code_simp
  have b: "nearestRankIndex 50 (length [1207 / 10 :: rat]) = 0" by code_simp
  show ?thesis unfolding b using a by simp
qed

section \<open>Properties: ordering of the summary\<close>











lemma analysis_beyond_limit:
  assumes "maxArguments env < length (notNull (map initDuration cs))"
  shows "analyzeColdStartPatterns env cs invs tr = Inl RangeError"
proof -
  have cs: "cs \<noteq> []" using assms by (auto simp add: notNull_def)
  have ds: "notNull (map initDuration cs) \<noteq> []" using assms by auto
  show ?thesis
    using assms cs ds by (simp add: analyzeColdStartPatterns_def Let_def mathMax_def)
qed




section \<open>Properties: the default sort on timestamps\<close>

text \<open>
  Decimal strings of equal length compare like the numbers they denote, so the default
  sort orders numbers of equal digit count numerically. Epoch milliseconds have
  thirteen digits from September 2001 to November 2286.
\<close>

lemma digitChar_less: "a < 10 \<Longrightarrow> b < 10 \<Longrightarrow> (digitChar a < digitChar b) = (a < b)"
  by (simp add: digitChar_def less_char_def)

lemma snoc_less_snoc:
  "length xs = length ys \<Longrightarrow>
   (xs @ [x] < ys @ [y]) = (xs < ys \<or> (xs = ys \<and> x < (y :: 'a :: linorder)))"
proof (induction xs ys rule: list_induct2)
  case Nil
  show ?case by simp
next
  case (Cons a xs b ys)
  then show ?case by auto
qed

lemma toString_nonempty: "toString n \<noteq> []"
  by (subst toString.simps) simp

lemma toString_single: "(length (toString n) = Suc 0) = (n < 10)"
proof (cases "n < 10")
  case True
  then show ?thesis by (subst toString.simps) simp
next
  case False
  have "toString (n div 10) \<noteq> []" by (rule toString_nonempty)
  then have "0 < length (toString (n div 10))" by simp
  with False show ?thesis by (subst toString.simps) simp
qed

lemma toString_step:
  "\<not> n < 10 \<Longrightarrow> toString n = toString (n div 10) @ [digitChar (n mod 10)]"
  by (subst toString.simps) simp

lemma less_by_digits_aux:
  "ra < 10 \<Longrightarrow> rb < 10 \<Longrightarrow>
   ((10 * qa + ra :: nat) < 10 * qb + rb) = (qa < qb \<or> (qa = qb \<and> ra < rb))"
  by arith

lemma less_by_digits:
  "((a::nat) < b) = (a div 10 < b div 10 \<or> (a div 10 = b div 10 \<and> a mod 10 < b mod 10))"
proof -
  have "(10 * (a div 10) + a mod 10 < 10 * (b div 10) + b mod 10) =
        (a div 10 < b div 10 \<or> (a div 10 = b div 10 \<and> a mod 10 < b mod 10))"
    by (rule less_by_digits_aux) simp_all
  then show ?thesis by simp
qed

lemma eq_iff_not_less: "((x::'a::linorder) = y) = (\<not> x < y \<and> \<not> y < x)"
  by auto

lemma toString_less:
  "length (toString a) = length (toString b) \<Longrightarrow>
   (toString a < toString b) = (a < b) \<and> (toString b < toString a) = (b < a)"
proof (induction a arbitrary: b rule: toString.induct)
  case (1 a)
  show ?case
  proof (cases "a < 10")
    case True
    then have la: "length (toString a) = Suc 0" by (simp only: toString_single)
    with "1.prems" have "length (toString b) = Suc 0" by simp
    then have b: "b < 10" by (simp only: toString_single)
    have ta: "toString a = [digitChar a]" using True by (subst toString.simps) simp
    have tb: "toString b = [digitChar b]" using b by (subst toString.simps) simp
    show ?thesis unfolding ta tb using True b by (simp add: digitChar_less)
  next
    case False
    have nb: "\<not> b < 10"
    proof
      assume "b < 10"
      then have "length (toString b) = Suc 0" by (simp only: toString_single)
      with "1.prems" have "length (toString a) = Suc 0" by simp
      then have "a < 10" by (simp only: toString_single)
      with False show False by simp
    qed
    define sa where "sa = toString (a div 10)"
    define sb where "sb = toString (b div 10)"
    define ca where "ca = digitChar (a mod 10)"
    define cb where "cb = digitChar (b mod 10)"
    have ta: "toString a = sa @ [ca]"
      unfolding sa_def ca_def by (rule toString_step [OF False])
    have tb: "toString b = sb @ [cb]"
      unfolding sb_def cb_def by (rule toString_step [OF nb])
    have len: "length sa = length sb"
      using "1.prems" unfolding ta tb by simp
    have ih: "(sa < sb) = (a div 10 < b div 10)" "(sb < sa) = (b div 10 < a div 10)"
      using "1.IH" [OF False, of "b div 10"] len unfolding sa_def sb_def by simp_all
    have "(sa = sb) = (\<not> sa < sb \<and> \<not> sb < sa)" by (rule eq_iff_not_less)
    also have "\<dots> = (a div 10 = b div 10)" unfolding ih by (rule eq_iff_not_less [symmetric])
    finally have eq: "(sa = sb) = (a div 10 = b div 10)" .
    have eq': "(sb = sa) = (b div 10 = a div 10)" using eq by (simp only: eq_commute)
    have da: "a mod 10 < 10" and db: "b mod 10 < 10" by simp_all
    have dc: "(ca < cb) = (a mod 10 < b mod 10)" "(cb < ca) = (b mod 10 < a mod 10)"
      unfolding ca_def cb_def by (rule digitChar_less [OF da db], rule digitChar_less [OF db da])
    have l1: "(toString a < toString b) = (a < b)"
      unfolding ta tb snoc_less_snoc [OF len] ih eq dc
      by (rule less_by_digits [symmetric])
    have l2: "(toString b < toString a) = (b < a)"
      unfolding ta tb snoc_less_snoc [OF len [symmetric]] ih eq' dc
      by (rule less_by_digits [symmetric])
    from l1 l2 show ?thesis ..
  qed
qed

lemma toString_le:
  assumes "length (toString a) = length (toString b)"
  shows "(toString a \<le> toString b) = (a \<le> b)"
  using toString_less [OF assms] by (metis leD leI)

lemma insort_key_same_order:
  assumes "\<And>y. y \<in> set ys \<Longrightarrow> (f x \<le> f y) = (x \<le> y)"
  shows "insort_key f x ys = insort x ys"
  using assms by (induction ys) simp_all

lemma sort_key_same_order:
  assumes "\<And>x y. x \<in> set xs \<Longrightarrow> y \<in> set xs \<Longrightarrow> (f x \<le> f y) = (x \<le> y)"
  shows "sort_key f xs = sort xs"
  using assms
proof (induction xs)
  case Nil
  show ?case by simp
next
  case (Cons x xs)
  have ih: "sort_key f xs = sort xs" using Cons by simp
  have "insort_key f x (sort xs) = insort x (sort xs)"
    by (rule insort_key_same_order) (simp add: Cons.prems)
  then show ?case by (simp add: ih)
qed

lemma defaultSort_numeric:
  assumes "\<And>a b. a \<in> set ts \<Longrightarrow> b \<in> set ts \<Longrightarrow> length (toString a) = length (toString b)"
  shows "defaultSort ts = sort ts"
  unfolding defaultSort_def
proof (rule sort_key_same_order)
  fix x y
  assume "x \<in> set ts" "y \<in> set ts"
  then have "length (toString x) = length (toString y)" by (rule assms)
  then show "(toString x \<le> toString y) = (x \<le> y)" by (rule toString_le)
qed

lemma countClusters_zip:
  "countClusters ts = length (filter (\<lambda>(a, b). int b - int a < 60000) (zip ts (tl ts)))"
  by (induction ts rule: countClusters.induct) simp_all

lemma countClusters_closeSuccessors: "countClusters ts = closeSuccessors ts"
proof -
  have "(\<lambda>(a, b). int b - int a < 60000) = (\<lambda>(a :: nat, b :: nat). b < a + 60000)"
    by (rule ext) auto
  then show ?thesis unfolding countClusters_zip closeSuccessors_def by simp
qed

lemma thirty_percent: "((of_nat c :: rat) > of_nat n * (3 / 10)) = (3 * n < 10 * c)"
proof -
  have "((of_nat c :: rat) > of_nat n * (3 / 10)) = ((of_nat (3 * n) :: rat) < of_nat (10 * c))"
    by (simp add: field_simps)
  also have "\<dots> = (3 * n < 10 * c)" by (rule of_nat_less_iff)
  finally show ?thesis .
qed

lemma checkDeploymentPattern_iff:
  assumes "\<And>a b. a \<in> set cs \<Longrightarrow> b \<in> set cs \<Longrightarrow>
             length (toString (csTimestamp a)) = length (toString (csTimestamp b))"
  shows "checkDeploymentPattern cs =
           (3 \<le> length cs \<and> 3 * length cs < 10 * closeSuccessors (sort (map csTimestamp cs)))"
proof -
  have s: "defaultSort (map csTimestamp cs) = sort (map csTimestamp cs)"
  proof (rule defaultSort_numeric)
    fix x y
    assume "x \<in> set (map csTimestamp cs)" "y \<in> set (map csTimestamp cs)"
    then obtain a b where ab: "a \<in> set cs" "b \<in> set cs" and x: "x = csTimestamp a"
      and y: "y = csTimestamp b"
      by auto
    show "length (toString x) = length (toString y)"
      unfolding x y by (rule assms [OF ab])
  qed
  show ?thesis
    unfolding checkDeploymentPattern_def Let_def s countClusters_closeSuccessors thirty_percent
    by auto
qed

lemma identifyTriggers_shape:
  "identifyTriggers cs invs =
     (let avgGap = averageGap (gapsOf (defaultSort (map timestamp invs)));
          ts = (if gtNaN avgGap 900000 then [''Long idle periods (>15 minutes)''] else []) @
               (if gtNaN avgGap 300000 then [''Moderate idle periods (5-15 minutes)''] else []) @
               (if checkDeploymentPattern cs then [''Function deployments/updates''] else []) @
               (if checkScalingPattern cs then [''Auto-scaling events''] else [])
      in if ts = [] then [''Normal Lambda lifecycle''] else ts)"
  by (simp add: identifyTriggers_def Let_def)

lemma identifyTriggers_deployment:
  "(''Function deployments/updates'' \<in> set (identifyTriggers cs invs)) = checkDeploymentPattern cs"
  unfolding identifyTriggers_shape Let_def by simp

text \<open>
  C5 (as amended). For every list of cold-start events whose timestamps have the same
  number of decimal digits, the trigger \<open>Function deployments/updates\<close> is reported
  exactly when there are at least three cold starts and more than 30% of the cold-start
  timestamps, taken in ascending order, follow their predecessor by less than 60
  seconds. With fewer than three cold starts the trigger is never reported.
\<close>

theorem deployment_trigger_iff:
  assumes "\<And>a b. a \<in> set cs \<Longrightarrow> b \<in> set cs \<Longrightarrow>
             length (toString (csTimestamp a)) = length (toString (csTimestamp b))"
  shows "(''Function deployments/updates'' \<in> set (identifyTriggers cs invs)) =
           (3 \<le> length cs \<and> 3 * length cs < 10 * closeSuccessors (sort (map csTimestamp cs)))"
  unfolding identifyTriggers_deployment by (rule checkDeploymentPattern_iff [OF assms])

theorem deployment_trigger_iff_witness:
  "length exampleColdStarts = 4 \<and>
   closeSuccessors (sort (map csTimestamp exampleColdStarts)) = 2 \<and>
   ''Function deployments/updates'' \<in> set (identifyTriggers exampleColdStarts [])"
proof -
  have t: "length (toString 1700000000000) = 13" "length (toString 1700000030000) = 13"
          "length (toString 1700000045000) = 13" "length (toString 1700003600000) = 13"
    by (simp_all add: toString.simps)
  have l: "length (toString (csTimestamp a)) = 13" if "a \<in> set exampleColdStarts" for a
    using that t by (auto simp add: exampleColdStarts_def exampleColdStart_def)
  have h: "length (toString (csTimestamp a)) = length (toString (csTimestamp b))"
    if "a \<in> set exampleColdStarts" "b \<in> set exampleColdStarts" for a b
    using l [OF that(1)] l [OF that(2)] by simp
  have n: "length exampleColdStarts = 4" by (simp add: exampleColdStarts_def)
  have c: "closeSuccessors (sort (map csTimestamp exampleColdStarts)) = 2"
    by (simp add: exampleColdStarts_def exampleColdStart_def closeSuccessors_def)
  from deployment_trigger_iff [where cs = exampleColdStarts and invs = "[]", OF h] show ?thesis
    unfolding n c by simp
qed

theorem two_clustered_cold_starts_not_reported:
  "3 * length [exampleColdStart 1700000000000 None, exampleColdStart 1700000001000 None]
     < 10 * closeSuccessors (sort (map csTimestamp
         [exampleColdStart 1700000000000 None, exampleColdStart 1700000001000 None])) \<and>
   ''Function deployments/updates'' \<notin> set (identifyTriggers
     [exampleColdStart 1700000000000 None, exampleColdStart 1700000001000 None] []) \<and>
   identifyTriggers [exampleColdStart 1700000000000 None, exampleColdStart 1700000001000 None] []
     = [''Normal Lambda lifecycle'']"
proof -
  have c: "closeSuccessors (sort (map csTimestamp
         [exampleColdStart 1700000000000 None, exampleColdStart 1700000001000 None])) = 1"
    by (simp add: exampleColdStart_def closeSuccessors_def)
  have d: "\<not> checkDeploymentPattern
         [exampleColdStart 1700000000000 None, exampleColdStart 1700000001000 None]"
    by (simp add: checkDeploymentPattern_def)
  have s: "\<not> checkScalingPattern
         [exampleColdStart 1700000000000 None, exampleColdStart 1700000001000 None]"
    by (simp add: checkScalingPattern_def)
  have g: "averageGap (gapsOf (defaultSort (map timestamp []))) = None"
    by (simp add: defaultSort_def averageGap_def)
  have i: "identifyTriggers
       [exampleColdStart 1700000000000 None, exampleColdStart 1700000001000 None] []
     = [''Normal Lambda lifecycle'']"
    unfolding identifyTriggers_shape Let_def g using d s by simp
  show ?thesis unfolding c i by simp
qed

section \<open>Properties: fewer than two invocations\<close>

lemma gapsOf_short: "length ts < 2 \<Longrightarrow> gapsOf ts = []"
  by (induction ts rule: gapsOf.induct) simp_all

lemma few_invocations_no_gaps:
  assumes "length invs < 2"
  shows "gapsOf (defaultSort (map timestamp invs)) = []"
proof (rule gapsOf_short)
  show "length (defaultSort (map timestamp invs)) < 2"
    using assms by (simp add: defaultSort_def)
qed

text \<open>
  C10. When fewer than two invocation events are present the list of gaps is empty, the
  average gap is \<open>NaN\<close> and exceeds neither idle threshold: trigger identification
  returns without reporting an idle-period trigger, and when neither the deployment nor
  the scaling pattern holds the result is exactly the default list with the single
  entry \<open>Normal Lambda lifecycle\<close>.
\<close>

theorem few_invocations_no_idle_trigger:
  assumes "length invs < 2"
  shows "averageGap (gapsOf (defaultSort (map timestamp invs))) = None \<and>
         ''Long idle periods (>15 minutes)'' \<notin> set (identifyTriggers cs invs) \<and>
         ''Moderate idle periods (5-15 minutes)'' \<notin> set (identifyTriggers cs invs) \<and>
         (\<not> checkDeploymentPattern cs \<and> \<not> checkScalingPattern cs \<longrightarrow>
            identifyTriggers cs invs = [''Normal Lambda lifecycle''])"
proof -
  have g: "averageGap (gapsOf (defaultSort (map timestamp invs))) = None"
    unfolding few_invocations_no_gaps [OF assms] by (simp add: averageGap_def)
  show ?thesis
    unfolding identifyTriggers_shape Let_def g by simp
qed

theorem few_invocations_no_idle_trigger_witness:
  "identifyTriggers [exampleColdStart 1700000000000 None]
     [exampleEvent 1700000000000 ''START RequestId: abc''] = [''Normal Lambda lifecycle'']"
proof -
  have h: "length [exampleEvent 1700000000000 ''START RequestId: abc''] < 2" by simp
  have d: "\<not> checkDeploymentPattern [exampleColdStart 1700000000000 None]"
    by (simp add: checkDeploymentPattern_def)
  have s: "\<not> checkScalingPattern [exampleColdStart 1700000000000 None]"
    by (simp add: checkScalingPattern_def)
  from few_invocations_no_idle_trigger [OF h, of "[exampleColdStart 1700000000000 None]"] d s
  show ?thesis by simp
qed

section \<open>Properties: events without a request identifier\<close>












section \<open>Properties: a failing log source\<close>

lemma fetch_failing:
  assumes "\<And>req. \<exists>e. send env req = Inl e"
  shows "fetchColdStartPages env lg st et tok acc = Some acc"
proof -
  obtain e where "send env \<lparr>logGroupName = lg, startTime = st, endTime = et,
      filterPattern = ''\"INIT_START\"'', nextToken = tok\<rparr> = Inl e"
    using assms by blast
  then show ?thesis by (subst fetchColdStartPages.simps) simp
qed

lemma getAllInvocations_failing:
  assumes "\<And>req. \<exists>e. send env req = Inl e"
  shows "getAllInvocations env lg st et = []"
proof -
  obtain e where "send env \<lparr>logGroupName = lg, startTime = st, endTime = et,
      filterPattern = ''\"START RequestId\"'', nextToken = None\<rparr> = Inl e"
    using assms by blast
  then show ?thesis by (simp add: getAllInvocations_def eventsOrEmpty_def)
qed

lemma no_High: "\<not> includesStr ''No cold starts detected'' ''High''"
  "\<not> includesStr ''No cold starts detected'' ''Very High''"
  by code_simp+

lemma recommendations_empty_analysis:
  "generateRecommendations getEmptyAnalysis =
     [''Consider using ARM-based Graviton2 processors for better price-performance'',
      ''Ensure you're using the latest runtime version for optimal performance'']"
proof -
  have f: "frequency getEmptyAnalysis = ''No cold starts detected''"
    and a: "avgDuration getEmptyAnalysis = 0"
    and p: "peakHours getEmptyAnalysis = []"
    and t: "triggers getEmptyAnalysis = []"
    by (simp_all add: getEmptyAnalysis_def)
  show ?thesis
    unfolding generateRecommendations_def Let_def f a p t using no_High by simp
qed

lemma length_getTimelinePeriods: "length (getTimelinePeriods now tr) = 24"
  by (simp add: getTimelinePeriods_def Let_def split: rangeValue.split)

lemma length_createTimeline: "length (createTimeline env now cs tr) = 24"
  by (simp add: createTimeline_def length_getTimelinePeriods)

lemma trackColdStarts_failing:
  assumes "\<And>req. \<exists>e. send env req = Inl e"
  shows "trackColdStarts env now tnow fn tr =
     Some \<lparr>avgDuration = 0, maxDuration = 0, minDuration = 0, peakHours = [],
           frequency = ''No cold starts detected'', triggers = [], patterns = [],
           statistics = \<lparr>count = 0,
                          percentiles = \<lparr>p50 = Some 0, p90 = Some 0, p95 = Some 0, p99 = Some 0\<rparr>,
                          distribution = []\<rparr>,
           totalColdStarts = 0, rate = 0,
           recommendations =
             [''Consider using ARM-based Graviton2 processors for better price-performance'',
              ''Ensure you're using the latest runtime version for optimal performance''],
           timeline = createTimeline env tnow [] tr\<rparr>"
proof -
  have a: "analyzeColdStartPatterns env [] [] tr = Inr getEmptyAnalysis"
    by (simp add: analyzeColdStartPatterns_def)
  show ?thesis
    unfolding trackColdStarts_def getColdStartEvents_def Let_def
      fetch_failing [OF assms] getAllInvocations_failing [OF assms]
    by (simp add: a recommendations_empty_analysis calculateColdStartRate_def)
       (simp add: getEmptyAnalysis_def)
qed

text \<open>
  C8 (what the program does). When every request to the log source fails, the tracking
  operation does not propagate the failure and returns a result whose counts and
  durations are zero. The result is not the one of \<open>getEmptyResult\<close>: each fetch
  absorbs the failure itself and yields an empty list, the handler of
  \<open>trackColdStarts\<close> is never entered, and the analysis of no cold starts gives the
  frequency \<open>No cold starts detected\<close>, the two general recommendations and a
  timeline of 24 empty periods, where \<open>getEmptyResult\<close> has the frequency
  \<open>No data\<close>, a single recommendation to check the permissions and no timeline.
\<close>

theorem failing_source_result:
  assumes "\<And>req. \<exists>e. send env req = Inl e"
  shows "\<exists>r. trackColdStarts env now tnow fn tr = Some r \<and>
           totalColdStarts r = 0 \<and> rate r = 0 \<and>
           avgDuration r = 0 \<and> maxDuration r = 0 \<and> minDuration r = 0 \<and>
           frequency r = ''No cold starts detected'' \<and>
           recommendations r =
             [''Consider using ARM-based Graviton2 processors for better price-performance'',
              ''Ensure you're using the latest runtime version for optimal performance''] \<and>
           length (timeline r) = 24 \<and>
           r \<noteq> getEmptyResult"
proof -
  define r where "r =
     \<lparr>avgDuration = 0, maxDuration = 0, minDuration = 0, peakHours = [],
      frequency = ''No cold starts detected'', triggers = [], patterns = [],
      statistics = \<lparr>count = 0,
                     percentiles = \<lparr>p50 = Some 0, p90 = Some 0, p95 = Some 0, p99 = Some 0\<rparr>,
                     distribution = []\<rparr>,
      totalColdStarts = 0, rate = 0,
      recommendations =
        [''Consider using ARM-based Graviton2 processors for better price-performance'',
         ''Ensure you're using the latest runtime version for optimal performance''],
      timeline = createTimeline env tnow [] tr\<rparr>"
  have t: "trackColdStarts env now tnow fn tr = Some r"
    unfolding r_def by (rule trackColdStarts_failing [OF assms])
  have f: "frequency r = ''No cold starts detected''" by (simp add: r_def)
  have z: "totalColdStarts r = 0" "rate r = 0" "avgDuration r = 0" "maxDuration r = 0"
    "minDuration r = 0" by (simp_all add: r_def)
  have c: "recommendations r =
        [''Consider using ARM-based Graviton2 processors for better price-performance'',
         ''Ensure you're using the latest runtime version for optimal performance'']"
    by (simp add: r_def)
  have l: "length (timeline r) = 24" by (simp add: r_def length_createTimeline)
  have ne: "r \<noteq> getEmptyResult"
  proof
    assume "r = getEmptyResult"
    then have "frequency r = frequency getEmptyResult" by simp
    with f show False by (simp add: getEmptyResult_def)
  qed
  from t z f c l ne show ?thesis by blast
qed

theorem failing_source_result_witness:
  "map_option frequency (trackColdStarts failingEnv 1700000000000 1700000000500 ''fn'' ''24h'')
     = Some ''No cold starts detected'' \<and>
   map_option recommendations
     (trackColdStarts failingEnv 1700000000000 1700000000500 ''fn'' ''24h'')
     = Some [''Consider using ARM-based Graviton2 processors for better price-performance'',
             ''Ensure you're using the latest runtime version for optimal performance''] \<and>
   trackColdStarts failingEnv 1700000000000 1700000000500 ''fn'' ''24h'' \<noteq> Some getEmptyResult"
proof -
  have h: "\<exists>e. send failingEnv req = Inl e" for req
    by (simp add: failingEnv_def)
  from failingEnv_def failing_source_result [OF h, of 1700000000000 1700000000500 "''fn''" "''24h''"]
  show ?thesis by auto
qed

end
